theory Spec2Isabelle
  imports Complex_Main
begin

section \<open>Conventions of the embedding\<close>

text \<open>
  The repository is TypeScript. Its numbers are modelled as follows: timestamps
  (\<^verbatim>\<open>Date.now()\<close>, milliseconds), durations and counters are integers (\<open>int\<close>);
  the two places where the source divides (\<^verbatim>\<open>remaining / 1000\<close> and
  \<^verbatim>\<open>ttlMs * refreshThresholdPercent / 100\<close>) are computed over \<open>real\<close>, so no
  truncation is introduced that the source does not have.

  \<^verbatim>\<open>Date.now()\<close> is an input of the environment: every function of the model that
  reads the clock takes one argument per read, named after the place of the read.

  An \<^verbatim>\<open>async\<close> function is modelled by the value it settles with: \<open>Inl e\<close> for a
  rejection with \<open>e\<close>, \<open>Inr v\<close> for a value \<open>v\<close>. A callback that the code may
  invoke several times (\<^verbatim>\<open>fn\<close>, \<^verbatim>\<open>refreshFn\<close>) is the sequence of its outcomes,
  a function from the number of earlier invocations to the outcome of the next one, and
  each operation reports how often it invoked the callback.
\<close>

section \<open>Circuit breaker (circuit-breaker.ts)\<close>

datatype CircuitState = CLOSED | OPEN | HALF_OPEN

text \<open>
  The two messages of \<^verbatim>\<open>CircuitBreakerError\<close>: "Odoo service temporarily unavailable.
  Connection will be retried in N seconds." and "Odoo service recovery test in progress.
  Please wait.".
\<close>

datatype cb_message = TemporarilyUnavailable | RecoveryTestInProgress

text \<open>
  What \<^verbatim>\<open>execute\<close> throws: its own \<^verbatim>\<open>CircuitBreakerError(message, secondsUntilRetry)\<close>,
  or the error of the wrapped function, re-thrown as it is.
\<close>

datatype 'e thrown = CircuitBreakerError cb_message int | Original 'e

text \<open>The class: three read-only constructor parameters and six private fields.\<close>

record CircuitBreaker =
  failureThreshold :: int
  resetTimeoutMs :: int
  halfOpenMaxAttempts :: int
  state :: CircuitState
  failureCount :: int
  successCount :: int
  lastFailureTime :: "int option"
  lastStateChange :: "int option"
  halfOpenAttempts :: int

definition new_CircuitBreaker :: "int \<Rightarrow> int \<Rightarrow> int \<Rightarrow> CircuitBreaker" where
  "new_CircuitBreaker threshold timeout maxAttempts =
     \<lparr>failureThreshold = threshold, resetTimeoutMs = timeout,
      halfOpenMaxAttempts = maxAttempts, state = CLOSED, failureCount = 0,
      successCount = 0, lastFailureTime = None, lastStateChange = None,
      halfOpenAttempts = 0\<rparr>"

definition transitionTo :: "int \<Rightarrow> CircuitState \<Rightarrow> CircuitBreaker \<Rightarrow> CircuitBreaker" where
  "transitionTo now newState b =
     (if state b \<noteq> newState then b\<lparr>state := newState, lastStateChange := Some now\<rparr>
      else b)"

definition shouldTransitionToHalfOpen :: "int \<Rightarrow> CircuitBreaker \<Rightarrow> bool" where
  "shouldTransitionToHalfOpen now b =
     (case lastFailureTime b of
        None \<Rightarrow> True
      | Some t \<Rightarrow> (let elapsed = now - t in elapsed \<ge> resetTimeoutMs b))"

definition getSecondsUntilHalfOpen :: "int \<Rightarrow> CircuitBreaker \<Rightarrow> int" where
  "getSecondsUntilHalfOpen now b =
     (case lastFailureTime b of
        None \<Rightarrow> 0
      | Some t \<Rightarrow>
          (let elapsed = now - t; remaining = resetTimeoutMs b - elapsed
           in if remaining > 0 then \<lceil>real_of_int remaining / 1000\<rceil> else 0))"

definition onSuccess :: "int \<Rightarrow> CircuitBreaker \<Rightarrow> CircuitBreaker" where
  "onSuccess atMove b =
     (let b1 = b\<lparr>successCount := successCount b + 1\<rparr>
      in if state b1 = HALF_OPEN then
           (transitionTo atMove CLOSED b1)\<lparr>failureCount := 0, halfOpenAttempts := 0\<rparr>
         else if state b1 = CLOSED then b1\<lparr>failureCount := 0\<rparr>
         else b1)"

definition onFailure :: "int \<Rightarrow> int \<Rightarrow> CircuitBreaker \<Rightarrow> CircuitBreaker" where
  "onFailure atFailure atMove b =
     (let b1 = b\<lparr>failureCount := failureCount b + 1, lastFailureTime := Some atFailure\<rparr>
      in if state b1 = HALF_OPEN then
           (transitionTo atMove OPEN b1)\<lparr>halfOpenAttempts := 0\<rparr>
         else if state b1 = CLOSED then
           (if failureCount b1 \<ge> failureThreshold b1 then transitionTo atMove OPEN b1
            else b1)
         else b1)"

text \<open>
  \<^verbatim>\<open>execute\<close> up to its \<^verbatim>\<open>await fn()\<close>: the admission decision. \<open>Inl\<close> is the
  error thrown before \<^verbatim>\<open>fn\<close> is reached, \<open>Inr ()\<close> means that \<^verbatim>\<open>fn\<close> is invoked
  next. \<open>atCheck\<close> is the clock read by \<^verbatim>\<open>shouldTransitionToHalfOpen\<close>, \<open>atGate\<close>
  the following read (by \<^verbatim>\<open>transitionTo\<close> or by \<^verbatim>\<open>getSecondsUntilHalfOpen\<close>).
\<close>

definition halfOpenGate :: "CircuitBreaker \<Rightarrow> ('e thrown + unit) \<times> CircuitBreaker" where
  "halfOpenGate b =
     (if state b = HALF_OPEN then
        (if halfOpenAttempts b \<ge> halfOpenMaxAttempts b then
           (Inl (CircuitBreakerError RecoveryTestInProgress 5), b)
         else (Inr (), b\<lparr>halfOpenAttempts := halfOpenAttempts b + 1\<rparr>))
      else (Inr (), b))"

definition admit :: "int \<Rightarrow> int \<Rightarrow> CircuitBreaker \<Rightarrow> ('e thrown + unit) \<times> CircuitBreaker" where
  "admit atCheck atGate b =
     (if state b = OPEN then
        (if shouldTransitionToHalfOpen atCheck b then
           halfOpenGate ((transitionTo atGate HALF_OPEN b)\<lparr>halfOpenAttempts := 0\<rparr>)
         else
           (let secondsUntilRetry = getSecondsUntilHalfOpen atGate b
            in (Inl (CircuitBreakerError TemporarilyUnavailable secondsUntilRetry), b)))
      else halfOpenGate b)"

text \<open>
  \<^verbatim>\<open>execute\<close> after \<^verbatim>\<open>fn\<close> has settled with \<open>res\<close>: the \<^verbatim>\<open>try\<close>/\<^verbatim>\<open>catch\<close>
  around the call. \<open>atFailure\<close> is the clock read by \<^verbatim>\<open>onFailure\<close>, \<open>atMove\<close> the
  read by a \<^verbatim>\<open>transitionTo\<close> that changes the state.
\<close>

definition settle ::
  "int \<Rightarrow> int \<Rightarrow> 'e + 'a \<Rightarrow> CircuitBreaker \<Rightarrow> ('e thrown + 'a) \<times> CircuitBreaker" where
  "settle atFailure atMove res b =
     (case res of
        Inr result \<Rightarrow> (Inr result, onSuccess atMove b)
      | Inl error \<Rightarrow> (Inl (Original error), onFailure atFailure atMove b))"

text \<open>The four clock reads one call of \<^verbatim>\<open>execute\<close> can make, in program order.\<close>

record clock =
  atCheck :: int
  atGate :: int
  atFailure :: int
  atMove :: int

text \<open>
  One whole call of \<^verbatim>\<open>execute\<close>, with no other call in between. The third component
  counts the invocations of \<^verbatim>\<open>fn\<close>.
\<close>

definition execute ::
  "clock \<Rightarrow> 'e + 'a \<Rightarrow> CircuitBreaker \<Rightarrow> ('e thrown + 'a) \<times> CircuitBreaker \<times> nat" where
  "execute clk fn b =
     (case admit (atCheck clk) (atGate clk) b of
        (Inl err, b1) \<Rightarrow> (Inl err, b1, 0)
      | (Inr u, b1) \<Rightarrow>
          (case settle (atFailure clk) (atMove clk) fn b1 of
             (res, b2) \<Rightarrow> (res, b2, 1)))"

text \<open>A run of calls of \<^verbatim>\<open>execute\<close>, one after the other; the breaker they leave.\<close>

primrec executeAll :: "(clock \<times> ('e + 'a)) list \<Rightarrow> CircuitBreaker \<Rightarrow> CircuitBreaker" where
  "executeAll [] b = b"
| "executeAll (c # cs) b = executeAll cs (fst (snd (execute (fst c) (snd c) b)))"


section \<open>Retry executor (retry.ts)\<close>

text \<open>
  What the wrapped function throws. \<^verbatim>\<open>isRetryableError\<close> reads
  \<^verbatim>\<open>error instanceof Error ? error.message : String(error)\<close>: an \<^verbatim>\<open>Error\<close> object is
  modelled by its message, any other thrown value by its string conversion.
\<close>

datatype thrown_value = ErrorObject string | OtherValue string

fun messageOf :: "thrown_value \<Rightarrow> string" where
  "messageOf (ErrorObject message) = message"
| "messageOf (OtherValue converted) = converted"

definition RETRYABLE_PATTERNS :: "string list" where
  "RETRYABLE_PATTERNS =
     [''ECONNREFUSED'', ''ECONNRESET'', ''ETIMEDOUT'', ''EHOSTUNREACH'',
      ''socket hang up'', ''ENOTFOUND'',
      ''500'', ''502'', ''503'', ''504'',
      ''Traceback'']"

definition NON_RETRYABLE_PATTERNS :: "string list" where
  "NON_RETRYABLE_PATTERNS =
     [''Invalid credentials'', ''Access Denied'', ''Forbidden'',
      ''unknown field'', ''does not have attribute'',
      ''invalid literal'']"

text \<open>\<^verbatim>\<open>String.prototype.includes\<close>: the pattern occurs somewhere in the message.\<close>

fun startsWith :: "string \<Rightarrow> string \<Rightarrow> bool" where
  "startsWith s [] = True"
| "startsWith [] (p # ps) = False"
| "startsWith (c # cs) (p # ps) = (c = p \<and> startsWith cs ps)"

fun String_includes :: "string \<Rightarrow> string \<Rightarrow> bool" where
  "String_includes [] pattern = (pattern = [])"
| "String_includes (c # cs) pattern = (startsWith (c # cs) pattern \<or> String_includes cs pattern)"

text \<open>The two \<^verbatim>\<open>for\<close> loops of \<^verbatim>\<open>isRetryableError\<close>, each returning at its first match.\<close>

definition isRetryableError :: "thrown_value \<Rightarrow> bool" where
  "isRetryableError error =
     (let message = messageOf error
      in if list_ex (String_includes message) NON_RETRYABLE_PATTERNS then False
         else if list_ex (String_includes message) RETRYABLE_PATTERNS then True
         else False)"

text \<open>
  The \<^verbatim>\<open>for\<close> loop of \<^verbatim>\<open>executeWithRetry\<close> from a given \<open>attempt\<close> on. \<open>fn\<close> gives
  the outcome of each invocation by the number of earlier invocations. The result is what
  the call settles with (\<open>Inl None\<close> is \<^verbatim>\<open>throw lastError\<close> with \<^verbatim>\<open>lastError\<close> still
  undefined), the number of invocations of \<open>fn\<close>, and the delays waited, in order.
\<close>

function retryLoop ::
  "(nat \<Rightarrow> thrown_value + 'a) \<Rightarrow> int \<Rightarrow> int \<Rightarrow> int \<Rightarrow> thrown_value option \<Rightarrow> nat \<Rightarrow> int list
   \<Rightarrow> (thrown_value option + 'a) \<times> nat \<times> int list" where
  "retryLoop fn maxRetries baseDelayMs attempt lastError calls waits =
     (if attempt \<le> maxRetries then
        (case fn calls of
           Inr result \<Rightarrow> (Inr result, Suc calls, waits)
         | Inl error \<Rightarrow>
             (if \<not> isRetryableError error \<or> attempt = maxRetries then
                (Inl (Some error), Suc calls, waits)
              else
                (let delay = baseDelayMs * 2 ^ nat (attempt - 1)
                 in retryLoop fn maxRetries baseDelayMs (attempt + 1) (Some error)
                      (Suc calls) (waits @ [delay]))))
      else (Inl lastError, calls, waits))"
  by pat_completeness auto
termination
  by (relation "measure (\<lambda>(fn, maxRetries, baseDelayMs, attempt, rest). nat (maxRetries + 1 - attempt))")
    auto

definition executeWithRetry ::
  "(nat \<Rightarrow> thrown_value + 'a) \<Rightarrow> int \<Rightarrow> int \<Rightarrow> (thrown_value option + 'a) \<times> nat \<times> int list" where
  "executeWithRetry fn maxRetries baseDelayMs = retryLoop fn maxRetries baseDelayMs 1 None 0 []"


section \<open>Cache entries and counters (cache-interface.ts)\<close>

record 'a CacheEntry =
  data :: 'a
  createdAt :: int
  expiresAt :: int

text \<open>The private fields that \<^verbatim>\<open>MemoryCache\<close> and \<^verbatim>\<open>RedisCache\<close> both declare.\<close>

record counters =
  hits :: int
  misses :: int
  refreshingKeys :: "string set"

text \<open>
  How an operation used \<^verbatim>\<open>refreshFn\<close>: \<open>Awaited\<close> for \<^verbatim>\<open>await refreshFn()\<close>,
  \<open>Background\<close> for the call whose promise is left to settle later. An operation
  reports the list of its invocations, in order; \<open>[]\<close> means never invoked.
\<close>

datatype invocation = Awaited | Background

text \<open>
  \<^verbatim>\<open>entry.createdAt + (ttlMs * refreshThresholdPercent / 100)\<close>, with the \<open>ttlMs\<close> and
  percentage of the current call.
\<close>

definition refreshThreshold :: "'a CacheEntry \<Rightarrow> int \<Rightarrow> int \<Rightarrow> real" where
  "refreshThreshold entry ttlMs refreshThresholdPercent =
     real_of_int (createdAt entry) +
     (real_of_int ttlMs * real_of_int refreshThresholdPercent / 100)"

section \<open>In-memory cache (cache-memory.ts)\<close>

text \<open>
  The store is an \<^verbatim>\<open>LRUCache\<close> of the \<^verbatim>\<open>lru-cache\<close> package, built with
  \<^verbatim>\<open>max: CACHE_CONFIG.MAX_SIZE\<close> and no other option. The package is a dependency, not
  code of the repository; it is modelled by its documented behaviour: a list of distinct
  keys with their values, most recently used first; \<^verbatim>\<open>get\<close> and \<^verbatim>\<open>set\<close> move the key
  to the front, \<^verbatim>\<open>set\<close> drops the least recently used entries beyond \<^verbatim>\<open>max\<close>, and
  \<^verbatim>\<open>entries()\<close> and \<^verbatim>\<open>keys()\<close> enumerate from the front.
\<close>

definition MAX_SIZE :: nat where
  "MAX_SIZE = 500"

type_synonym 'a LRUCache = "(string \<times> 'a CacheEntry) list"

definition LRU_get :: "string \<Rightarrow> 'a LRUCache \<Rightarrow> 'a CacheEntry option \<times> 'a LRUCache" where
  "LRU_get key c =
     (case map_of c key of
        None \<Rightarrow> (None, c)
      | Some entry \<Rightarrow> (Some entry, (key, entry) # filter (\<lambda>kv. fst kv \<noteq> key) c))"

definition LRU_set :: "string \<Rightarrow> 'a CacheEntry \<Rightarrow> 'a LRUCache \<Rightarrow> 'a LRUCache" where
  "LRU_set key entry c = take MAX_SIZE ((key, entry) # filter (\<lambda>kv. fst kv \<noteq> key) c)"

definition LRU_delete :: "string \<Rightarrow> 'a LRUCache \<Rightarrow> bool \<times> 'a LRUCache" where
  "LRU_delete key c = (map_of c key \<noteq> None, filter (\<lambda>kv. fst kv \<noteq> key) c)"

record 'a MemoryCache = counters +
  cache :: "'a LRUCache"

definition new_MemoryCache :: "'a MemoryCache" where
  "new_MemoryCache = \<lparr>hits = 0, misses = 0, refreshingKeys = {}, cache = []\<rparr>"

definition MemoryCache_set :: "int \<Rightarrow> string \<Rightarrow> 'a \<Rightarrow> int \<Rightarrow> 'a MemoryCache \<Rightarrow> 'a MemoryCache" where
  "MemoryCache_set now key d ttlMs m =
     m\<lparr>cache := LRU_set key \<lparr>data = d, createdAt = now, expiresAt = now + ttlMs\<rparr> (cache m)\<rparr>"

definition MemoryCache_get :: "int \<Rightarrow> string \<Rightarrow> 'a MemoryCache \<Rightarrow> 'a option \<times> 'a MemoryCache" where
  "MemoryCache_get now key m =
     (case LRU_get key (cache m) of
        (None, c) \<Rightarrow> (None, m\<lparr>misses := misses m + 1\<rparr>)
      | (Some entry, c) \<Rightarrow>
          (if now > expiresAt entry then
             (None, m\<lparr>cache := snd (LRU_delete key c), misses := misses m + 1\<rparr>)
           else (Some (data entry), m\<lparr>cache := c, hits := hits m + 1\<rparr>)))"

definition MemoryCache_has :: "int \<Rightarrow> string \<Rightarrow> 'a MemoryCache \<Rightarrow> bool \<times> 'a MemoryCache" where
  "MemoryCache_has now key m =
     (case LRU_get key (cache m) of
        (None, c) \<Rightarrow> (False, m)
      | (Some entry, c) \<Rightarrow>
          (if now > expiresAt entry then (False, m\<lparr>cache := snd (LRU_delete key c)\<rparr>)
           else (True, m\<lparr>cache := c\<rparr>)))"

definition MemoryCache_clearExpired :: "int \<Rightarrow> 'a MemoryCache \<Rightarrow> nat \<times> 'a MemoryCache" where
  "MemoryCache_clearExpired now m =
     (length (filter (\<lambda>kv. now > expiresAt (snd kv)) (cache m)),
      m\<lparr>cache := filter (\<lambda>kv. \<not> now > expiresAt (snd kv)) (cache m)\<rparr>)"

text \<open>\<^verbatim>\<open>stats()\<close>: the size, the keys, and the cache after the housekeeping.\<close>

definition MemoryCache_stats :: "int \<Rightarrow> 'a MemoryCache \<Rightarrow> (nat \<times> string list) \<times> 'a MemoryCache" where
  "MemoryCache_stats now m =
     (let m1 = snd (MemoryCache_clearExpired now m)
      in ((length (cache m1), map fst (cache m1)), m1))"

text \<open>
  The last four lines of \<^verbatim>\<open>getWithRefresh\<close>: count a miss, await \<^verbatim>\<open>refreshFn\<close>, store
  and return its value. A rejection of \<^verbatim>\<open>refreshFn\<close> leaves the method at the
  \<^verbatim>\<open>await\<close>. \<open>atSet\<close> is the clock read by \<^verbatim>\<open>set\<close>.
\<close>

definition MemoryCache_fetchFresh ::
  "int \<Rightarrow> string \<Rightarrow> (nat \<Rightarrow> 'e + 'a) \<Rightarrow> int \<Rightarrow> 'a MemoryCache
   \<Rightarrow> ('e + 'a) \<times> 'a MemoryCache \<times> invocation list" where
  "MemoryCache_fetchFresh atSet key refreshFn ttlMs m =
     (let m1 = m\<lparr>misses := misses m + 1\<rparr>
      in case refreshFn 0 of
           Inl err \<Rightarrow> (Inl err, m1, [Awaited])
         | Inr freshData \<Rightarrow>
             (Inr freshData, MemoryCache_set atSet key freshData ttlMs m1, [Awaited]))"

definition MemoryCache_getWithRefresh ::
  "int \<Rightarrow> int \<Rightarrow> string \<Rightarrow> (nat \<Rightarrow> 'e + 'a) \<Rightarrow> int \<Rightarrow> int \<Rightarrow> 'a MemoryCache
   \<Rightarrow> ('e + 'a) \<times> 'a MemoryCache \<times> invocation list" where
  "MemoryCache_getWithRefresh now atSet key refreshFn ttlMs refreshThresholdPercent m =
     (case LRU_get key (cache m) of
        (Some entry, c) \<Rightarrow>
          (if real_of_int now < refreshThreshold entry ttlMs refreshThresholdPercent then
             (Inr (data entry), m\<lparr>cache := c, hits := hits m + 1\<rparr>, [])
           else if now < expiresAt entry then
             (if key \<notin> refreshingKeys m then
                (Inr (data entry),
                 m\<lparr>cache := c, hits := hits m + 1,
                   refreshingKeys := insert key (refreshingKeys m)\<rparr>,
                 [Background])
              else (Inr (data entry), m\<lparr>cache := c, hits := hits m + 1\<rparr>, []))
           else
             MemoryCache_fetchFresh atSet key refreshFn ttlMs
               (m\<lparr>cache := snd (LRU_delete key c)\<rparr>))
      | (None, c) \<Rightarrow> MemoryCache_fetchFresh atSet key refreshFn ttlMs m)"

text \<open>
  The \<^verbatim>\<open>then\<close>/\<^verbatim>\<open>catch\<close>/\<^verbatim>\<open>finally\<close> chain of a background refresh, run when the
  promise of \<^verbatim>\<open>refreshFn\<close> settles with \<open>res\<close>.
\<close>

definition MemoryCache_refreshSettled ::
  "int \<Rightarrow> string \<Rightarrow> 'e + 'a \<Rightarrow> int \<Rightarrow> 'a MemoryCache \<Rightarrow> 'a MemoryCache" where
  "MemoryCache_refreshSettled atSet key res ttlMs m =
     (let m1 = (case res of
                  Inr freshData \<Rightarrow> MemoryCache_set atSet key freshData ttlMs m
                | Inl err \<Rightarrow> m)
      in m1\<lparr>refreshingKeys := refreshingKeys m1 - {key}\<rparr>)"


section \<open>Redis cache (cache-redis.ts)\<close>

text \<open>
  Modelled from the spec: \<^verbatim>\<open>REDIS_CONFIG.KEY_PREFIX\<close> is declared in constants.ts, which
  is not among the sources; section 6 of the specification gives its default.
\<close>

definition KEY_PREFIX :: string where
  "KEY_PREFIX = ''odoo-crm:''"

definition prefixKey :: "string \<Rightarrow> string" where
  "prefixKey key = KEY_PREFIX @ key"

text \<open>
  The Redis server is a dependency reached through the \<^verbatim>\<open>ioredis\<close> client. The model
  keeps the keys the server holds at the moment of a command, each with the entry whose
  JSON text was stored and the \<^verbatim>\<open>PX\<close> argument it was stored with
  (\<^verbatim>\<open>JSON.parse (JSON.stringify entry)\<close> is taken to be \<open>entry\<close>: the interface
  requires JSON-serializable data). The server removes a key on its own once the
  \<^verbatim>\<open>PX\<close> time has passed since the command arrived; that is an action of the
  environment, not of the code. Whether a command of the client resolves or rejects
  (server unreachable, command refused, as a \<^verbatim>\<open>PX\<close> that is not positive is) is an
  input too: one flag per command.
\<close>

type_synonym 'a keyspace = "string \<rightharpoonup> ('a CacheEntry \<times> int)"

definition no_keys :: "'a keyspace" where
  "no_keys = Map.empty"

datatype 'r reply = Rejected | Resolved 'r

definition client_get :: "bool \<Rightarrow> string \<Rightarrow> 'a keyspace \<Rightarrow> 'a CacheEntry option reply" where
  "client_get ok k srv = (if ok then Resolved (map_option fst (srv k)) else Rejected)"

definition client_set ::
  "bool \<Rightarrow> string \<Rightarrow> 'a CacheEntry \<Rightarrow> int \<Rightarrow> 'a keyspace \<Rightarrow> 'a keyspace reply" where
  "client_set ok k entry px srv = (if ok then Resolved (srv(k \<mapsto> (entry, px))) else Rejected)"

definition client_exists :: "bool \<Rightarrow> string \<Rightarrow> 'a keyspace \<Rightarrow> int reply" where
  "client_exists ok k srv = (if ok then Resolved (if srv k \<noteq> None then 1 else 0) else Rejected)"

definition client_del :: "bool \<Rightarrow> string \<Rightarrow> 'a keyspace \<Rightarrow> (int \<times> 'a keyspace) reply" where
  "client_del ok k srv =
     (if ok then Resolved (if srv k \<noteq> None then 1 else 0, srv(k := None)) else Rejected)"

record 'a RedisCache = counters +
  client :: "'a keyspace"

definition new_RedisCache :: "'a keyspace \<Rightarrow> 'a RedisCache" where
  "new_RedisCache srv = \<lparr>hits = 0, misses = 0, refreshingKeys = {}, client = srv\<rparr>"

definition RedisCache_get ::
  "bool \<Rightarrow> bool \<Rightarrow> int \<Rightarrow> string \<Rightarrow> 'a RedisCache \<Rightarrow> 'a option \<times> 'a RedisCache" where
  "RedisCache_get getOk delOk now key r =
     (let prefixedKey = prefixKey key
      in case client_get getOk prefixedKey (client r) of
           Rejected \<Rightarrow> (None, r\<lparr>misses := misses r + 1\<rparr>)
         | Resolved None \<Rightarrow> (None, r\<lparr>misses := misses r + 1\<rparr>)
         | Resolved (Some entry) \<Rightarrow>
             (if now > expiresAt entry then
                (case client_del delOk prefixedKey (client r) of
                   Rejected \<Rightarrow> (None, r\<lparr>misses := misses r + 1\<rparr>)
                 | Resolved (n, srv) \<Rightarrow> (None, r\<lparr>client := srv, misses := misses r + 1\<rparr>))
              else (Some (data entry), r\<lparr>hits := hits r + 1\<rparr>)))"

text \<open>\<^verbatim>\<open>set\<close> never throws: a rejected command is logged and nothing is written.\<close>

definition RedisCache_set ::
  "bool \<Rightarrow> int \<Rightarrow> string \<Rightarrow> 'a \<Rightarrow> int \<Rightarrow> 'a RedisCache \<Rightarrow> 'a RedisCache" where
  "RedisCache_set setOk now key d ttlMs r =
     (let entry = \<lparr>data = d, createdAt = now, expiresAt = now + ttlMs\<rparr>;
          prefixedKey = prefixKey key
      in case client_set setOk prefixedKey entry ttlMs (client r) of
           Resolved srv \<Rightarrow> r\<lparr>client := srv\<rparr>
         | Rejected \<Rightarrow> r)"

definition RedisCache_has :: "bool \<Rightarrow> string \<Rightarrow> 'a RedisCache \<Rightarrow> bool \<times> 'a RedisCache" where
  "RedisCache_has existsOk key r =
     (case client_exists existsOk (prefixKey key) (client r) of
        Resolved n \<Rightarrow> (n = 1, r)
      | Rejected \<Rightarrow> (False, r))"

text \<open>
  The \<^verbatim>\<open>catch\<close> clause of \<^verbatim>\<open>getWithRefresh\<close>. \<open>earlier\<close> lists the invocations of
  \<^verbatim>\<open>refreshFn\<close> made in the \<^verbatim>\<open>try\<close> block before the exception; the clause invokes
  \<^verbatim>\<open>refreshFn\<close> once more. Its \<^verbatim>\<open>set\<close> is not awaited; the model applies it at once.
\<close>

definition RedisCache_fetchDirectly ::
  "bool \<Rightarrow> int \<Rightarrow> string \<Rightarrow> (nat \<Rightarrow> 'e + 'a) \<Rightarrow> int \<Rightarrow> invocation list \<Rightarrow> 'a RedisCache
   \<Rightarrow> ('e + 'a) \<times> 'a RedisCache \<times> invocation list" where
  "RedisCache_fetchDirectly setOk atSet key refreshFn ttlMs earlier r =
     (let r1 = r\<lparr>misses := misses r + 1\<rparr>
      in case refreshFn (length earlier) of
           Inl err \<Rightarrow> (Inl err, r1, earlier @ [Awaited])
         | Inr freshData \<Rightarrow>
             (Inr freshData, RedisCache_set setOk atSet key freshData ttlMs r1,
              earlier @ [Awaited]))"

text \<open>
  The end of the \<^verbatim>\<open>try\<close> block: count a miss, await \<^verbatim>\<open>refreshFn\<close>, store and return
  its value. The \<^verbatim>\<open>await refreshFn()\<close> stands inside the \<^verbatim>\<open>try\<close>, so a rejection of
  \<^verbatim>\<open>refreshFn\<close> is caught by the \<^verbatim>\<open>catch\<close> clause like an error of the client.
\<close>

definition RedisCache_fetchFresh ::
  "bool \<Rightarrow> int \<Rightarrow> string \<Rightarrow> (nat \<Rightarrow> 'e + 'a) \<Rightarrow> int \<Rightarrow> 'a RedisCache
   \<Rightarrow> ('e + 'a) \<times> 'a RedisCache \<times> invocation list" where
  "RedisCache_fetchFresh setOk atSet key refreshFn ttlMs r =
     (let r1 = r\<lparr>misses := misses r + 1\<rparr>
      in case refreshFn 0 of
           Inr freshData \<Rightarrow>
             (Inr freshData, RedisCache_set setOk atSet key freshData ttlMs r1, [Awaited])
         | Inl err \<Rightarrow> RedisCache_fetchDirectly setOk atSet key refreshFn ttlMs [Awaited] r1)"

definition RedisCache_getWithRefresh ::
  "bool \<Rightarrow> bool \<Rightarrow> int \<Rightarrow> int \<Rightarrow> string \<Rightarrow> (nat \<Rightarrow> 'e + 'a) \<Rightarrow> int \<Rightarrow> int \<Rightarrow> 'a RedisCache
   \<Rightarrow> ('e + 'a) \<times> 'a RedisCache \<times> invocation list" where
  "RedisCache_getWithRefresh getOk setOk now atSet key refreshFn ttlMs refreshThresholdPercent r =
     (case client_get getOk (prefixKey key) (client r) of
        Rejected \<Rightarrow> RedisCache_fetchDirectly setOk atSet key refreshFn ttlMs [] r
      | Resolved (Some entry) \<Rightarrow>
          (if real_of_int now < refreshThreshold entry ttlMs refreshThresholdPercent then
             (Inr (data entry), r\<lparr>hits := hits r + 1\<rparr>, [])
           else if now < expiresAt entry then
             (if key \<notin> refreshingKeys r then
                (Inr (data entry),
                 r\<lparr>hits := hits r + 1, refreshingKeys := insert key (refreshingKeys r)\<rparr>,
                 [Background])
              else (Inr (data entry), r\<lparr>hits := hits r + 1\<rparr>, []))
           else RedisCache_fetchFresh setOk atSet key refreshFn ttlMs r)
      | Resolved None \<Rightarrow> RedisCache_fetchFresh setOk atSet key refreshFn ttlMs r)"

definition RedisCache_refreshSettled ::
  "bool \<Rightarrow> int \<Rightarrow> string \<Rightarrow> 'e + 'a \<Rightarrow> int \<Rightarrow> 'a RedisCache \<Rightarrow> 'a RedisCache" where
  "RedisCache_refreshSettled setOk atSet key res ttlMs r =
     (let r1 = (case res of
                  Inr freshData \<Rightarrow> RedisCache_set setOk atSet key freshData ttlMs r
                | Inl err \<Rightarrow> r)
      in r1\<lparr>refreshingKeys := refreshingKeys r1 - {key}\<rparr>)"

section \<open>Concrete runs\<close>

text \<open>The inputs at which the properties below are evaluated.\<close>

definition c1_breaker :: CircuitBreaker where
  "c1_breaker = new_CircuitBreaker 2 60000 1"

definition c1_failures :: "(clock \<times> (string + int)) list" where
  "c1_failures =
     [(\<lparr>atCheck = 0, atGate = 0, atFailure = 100, atMove = 100\<rparr>, Inl ''ETIMEDOUT''),
      (\<lparr>atCheck = 150, atGate = 150, atFailure = 200, atMove = 201\<rparr>, Inl ''ETIMEDOUT'')]"

definition c1_early :: clock where
  "c1_early = \<lparr>atCheck = 1200, atGate = 1201, atFailure = 1300, atMove = 1300\<rparr>"













definition c6_error :: thrown_value where
  "c6_error = ErrorObject ''Forbidden: read ECONNRESET''"

fun c6_fn :: "nat \<Rightarrow> thrown_value + int" where
  "c6_fn n = Inl c6_error"

definition c6_reset :: thrown_value where
  "c6_reset = ErrorObject ''read ECONNRESET''"

fun c6_resets :: "nat \<Rightarrow> thrown_value" where
  "c6_resets n = c6_reset"

fun c6_failing :: "nat \<Rightarrow> thrown_value + int" where
  "c6_failing n = Inl (c6_resets n)"

definition c7_error :: thrown_value where
  "c7_error = ErrorObject ''Invalid credentials''"

fun c7_fn :: "nat \<Rightarrow> thrown_value + int" where
  "c7_fn n = Inl c7_error"

definition c7_unknown :: thrown_value where
  "c7_unknown = OtherValue ''quota exceeded''"

fun c7_unknown_fn :: "nat \<Rightarrow> thrown_value + int" where
  "c7_unknown_fn n = Inl c7_unknown"

definition c10_error :: thrown_value where
  "c10_error = ErrorObject ''Invalid credentials (HTTP 500)''"

fun c10_fn :: "nat \<Rightarrow> thrown_value + int" where
  "c10_fn n = Inl c10_error"

definition c4_memory :: "int MemoryCache" where
  "c4_memory = MemoryCache_set 0 ''x'' 42 1000 new_MemoryCache"

definition c4_zero_ttl :: "int MemoryCache" where
  "c4_zero_ttl = MemoryCache_set 5 ''x'' 42 0 new_MemoryCache"

definition c8_memory :: "int MemoryCache" where
  "c8_memory = MemoryCache_set 1000 ''k'' 7 (- 1) new_MemoryCache"

definition c8_entry :: "int CacheEntry" where
  "c8_entry = \<lparr>data = 7, createdAt = 1000, expiresAt = 999\<rparr>"

definition c8_old :: "int CacheEntry" where
  "c8_old = \<lparr>data = 1, createdAt = 0, expiresAt = 5000\<rparr>"

definition c8_new :: "int CacheEntry" where
  "c8_new = \<lparr>data = 8, createdAt = 2000, expiresAt = 2500\<rparr>"

definition c8_redis :: "int RedisCache" where
  "c8_redis = new_RedisCache (no_keys(prefixKey ''k'' \<mapsto> (c8_old, 5000)))"

definition c8_before :: "int MemoryCache" where
  "c8_before = \<lparr>hits = 0, misses = 0, refreshingKeys = {}, cache = [(''j'', c8_old), (''k'', c8_old)]\<rparr>"

definition c9_entry :: "int CacheEntry" where
  "c9_entry = \<lparr>data = 7, createdAt = 0, expiresAt = 1000\<rparr>"

definition c9_redis :: "int RedisCache" where
  "c9_redis = RedisCache_set True 0 ''k'' 7 1000 (new_RedisCache no_keys)"

definition c9_memory :: "int MemoryCache" where
  "c9_memory = MemoryCache_set 0 ''k'' 7 1000 new_MemoryCache"





definition c3_memory :: "int MemoryCache" where
  "c3_memory = MemoryCache_set 0 ''k'' 1 100 new_MemoryCache"

definition c3_entry :: "int CacheEntry" where
  "c3_entry = \<lparr>data = 1, createdAt = 0, expiresAt = 100\<rparr>"

fun c3_refresh :: "nat \<Rightarrow> string + int" where
  "c3_refresh n = Inr 2"

fun c3_rejecting :: "nat \<Rightarrow> string + int" where
  "c3_rejecting n = Inl ''ETIMEDOUT''"

fun c3_flaky :: "nat \<Rightarrow> string + int" where
  "c3_flaky 0 = Inl ''ETIMEDOUT''"
| "c3_flaky (Suc n) = Inr 2"

definition c3_redis :: "int RedisCache" where
  "c3_redis = new_RedisCache no_keys"

definition c3_fetched :: "int CacheEntry" where
  "c3_fetched = \<lparr>data = 2, createdAt = 501, expiresAt = 601\<rparr>"

definition c3_after :: "int MemoryCache" where
  "c3_after = \<lparr>hits = 0, misses = 1, refreshingKeys = {}, cache = [(''k'', c3_fetched)]\<rparr>"

definition c3_failed :: "int MemoryCache" where
  "c3_failed = \<lparr>hits = 0, misses = 1, refreshingKeys = {}, cache = []\<rparr>"

section \<open>Properties of the circuit breaker\<close>

lemma transitionTo_config [simp]:
  "failureThreshold (transitionTo t s b) = failureThreshold b"
  "resetTimeoutMs (transitionTo t s b) = resetTimeoutMs b"
  "halfOpenMaxAttempts (transitionTo t s b) = halfOpenMaxAttempts b"
  by (simp_all add: transitionTo_def)

lemma execute_closed_failure:
  "state b = CLOSED \<Longrightarrow>
   execute clk (Inl e) b = (Inl (Original e), onFailure (atFailure clk) (atMove clk) b, 1)"
  by (simp add: execute_def admit_def halfOpenGate_def settle_def)

lemma onFailure_closed_below:
  "state b = CLOSED \<Longrightarrow> failureCount b + 1 < failureThreshold b \<Longrightarrow>
   onFailure tf tm b = b\<lparr>failureCount := failureCount b + 1, lastFailureTime := Some tf\<rparr>"
  by (simp add: onFailure_def Let_def)

lemma onFailure_closed_reached:
  "state b = CLOSED \<Longrightarrow> failureThreshold b \<le> failureCount b + 1 \<Longrightarrow>
   onFailure tf tm b =
     b\<lparr>failureCount := failureCount b + 1, lastFailureTime := Some tf,
       state := OPEN, lastStateChange := Some tm\<rparr>"
  by (simp add: onFailure_def Let_def transitionTo_def)

lemma failures_below_threshold:
  "state b = CLOSED \<Longrightarrow> \<forall>c \<in> set calls. isl (snd c) \<Longrightarrow>
   failureCount b + int (length calls) < failureThreshold b \<Longrightarrow>
   state (executeAll calls b) = CLOSED \<and>
   failureCount (executeAll calls b) = failureCount b + int (length calls) \<and>
   failureThreshold (executeAll calls b) = failureThreshold b \<and>
   resetTimeoutMs (executeAll calls b) = resetTimeoutMs b"
proof (induction calls arbitrary: b)
  case Nil
  then show ?case by simp
next
  case (Cons c cs)
  obtain clk e where c: "c = (clk, Inl e)"
    using Cons.prems(2) by (cases c; cases "snd c") auto
  let ?b1 = "b\<lparr>failureCount := failureCount b + 1, lastFailureTime := Some (atFailure clk)\<rparr>"
  have step: "fst (snd (execute (fst c) (snd c) b)) = ?b1"
    using Cons.prems c by (simp add: execute_closed_failure onFailure_closed_below)
  have "state (executeAll cs ?b1) = CLOSED \<and>
    failureCount (executeAll cs ?b1) = failureCount ?b1 + int (length cs) \<and>
    failureThreshold (executeAll cs ?b1) = failureThreshold ?b1 \<and>
    resetTimeoutMs (executeAll cs ?b1) = resetTimeoutMs ?b1"
    using Cons.prems by (intro Cons.IH) auto
  then show ?case using step by simp
qed

lemma executeAll_append:
  "executeAll (xs @ ys) b = executeAll ys (executeAll xs b)"
  by (induction xs arbitrary: b) simp_all

lemma open_rejects:
  assumes "state b = OPEN" "lastFailureTime b = Some tf"
    and "atCheck clk - tf < resetTimeoutMs b" "atGate clk - tf < resetTimeoutMs b"
  shows "execute clk fn b =
    (Inl (CircuitBreakerError TemporarilyUnavailable
       \<lceil>real_of_int (resetTimeoutMs b - (atGate clk - tf)) / 1000\<rceil>), b, 0)"
  using assms
  by (simp add: execute_def admit_def shouldTransitionToHalfOpen_def
      getSecondsUntilHalfOpen_def Let_def)

text \<open>
  Claim C1. Take a breaker that is CLOSED with no failure counted and a positive
  \<^verbatim>\<open>failureThreshold\<close>, and run exactly \<^verbatim>\<open>failureThreshold\<close> calls of \<^verbatim>\<open>execute\<close>
  whose function fails. Then the state is OPEN, it was still CLOSED after every smaller
  number of these calls, and \<^verbatim>\<open>lastFailureTime\<close> is the time of the last failure. Every
  later call whose clock reads are less than \<^verbatim>\<open>resetTimeoutMs\<close> after
  \<^verbatim>\<open>lastFailureTime\<close> throws the \<^verbatim>\<open>CircuitBreakerError\<close> with
  \<open>\<lceil>remaining / 1000\<rceil>\<close> seconds, where \<open>remaining\<close> is what is left of the timeout,
  invokes the function zero times and leaves the breaker as it was, so the same holds
  for the call after it.
\<close>

theorem breaker_opens_at_threshold_and_fails_fast:
  assumes "state b = CLOSED" and "failureCount b = 0" and "0 < failureThreshold b"
    and "int (length calls) = failureThreshold b"
    and "\<forall>c \<in> set calls. isl (snd c)"
  shows "state (executeAll (calls :: (clock \<times> ('e + 'a)) list) b) = OPEN \<and>
    (\<forall>k < length calls. state (executeAll (take k calls) b) = CLOSED) \<and>
    lastFailureTime (executeAll calls b) = Some (atFailure (fst (last calls))) \<and>
    (\<forall>clk (fn :: 'e + 'a).
       atCheck clk - atFailure (fst (last calls)) < resetTimeoutMs b \<and>
       atGate clk - atFailure (fst (last calls)) < resetTimeoutMs b \<longrightarrow>
       execute clk fn (executeAll calls b) =
         (Inl (CircuitBreakerError TemporarilyUnavailable
            \<lceil>real_of_int (resetTimeoutMs b - (atGate clk - atFailure (fst (last calls)))) / 1000\<rceil>),
          executeAll calls b, 0))"
proof -
  from assms(3,4) have ne: "calls \<noteq> []" by auto
  then obtain cs c where calls: "calls = cs @ [c]"
    by (cases calls rule: rev_cases) auto
  obtain clk e where c: "c = (clk, Inl e)"
    using assms(5) calls by (cases c; cases "snd c") auto
  have below: "state (executeAll xs b) = CLOSED \<and>
      failureCount (executeAll xs b) = int (length xs) \<and>
      failureThreshold (executeAll xs b) = failureThreshold b \<and>
      resetTimeoutMs (executeAll xs b) = resetTimeoutMs b"
    if "set xs \<subseteq> set calls" "length xs < length calls" for xs
    using failures_below_threshold [of b xs] that assms by auto
  let ?b1 = "executeAll cs b"
  have b1: "state ?b1 = CLOSED" "failureCount ?b1 = int (length cs)"
    "failureThreshold ?b1 = failureThreshold b" "resetTimeoutMs ?b1 = resetTimeoutMs b"
    using below [of cs] calls by auto
  have reached: "failureThreshold ?b1 \<le> failureCount ?b1 + 1"
    using b1 assms(4) calls by simp
  have final: "executeAll calls b =
      ?b1\<lparr>failureCount := failureCount ?b1 + 1, lastFailureTime := Some (atFailure clk),
        state := OPEN, lastStateChange := Some (atMove clk)\<rparr>"
    using b1(1) reached
    by (simp add: calls c executeAll_append execute_closed_failure onFailure_closed_reached)
  have st: "state (executeAll calls b) = OPEN"
    and lf: "lastFailureTime (executeAll calls b) = Some (atFailure (fst (last calls)))"
    and rt: "resetTimeoutMs (executeAll calls b) = resetTimeoutMs b"
    using b1 by (simp_all add: final) (simp_all add: calls c)
  have pre: "\<forall>k < length calls. state (executeAll (take k calls) b) = CLOSED"
  proof (intro allI impI)
    fix k assume "k < length calls"
    then show "state (executeAll (take k calls) b) = CLOSED"
      using below [of "take k calls"] by (auto dest: in_set_takeD)
  qed
  have rej: "execute k fn (executeAll calls b) =
         (Inl (CircuitBreakerError TemporarilyUnavailable
            \<lceil>real_of_int (resetTimeoutMs b - (atGate k - atFailure (fst (last calls)))) / 1000\<rceil>),
          executeAll calls b, 0)"
    if "atCheck k - atFailure (fst (last calls)) < resetTimeoutMs b"
      "atGate k - atFailure (fst (last calls)) < resetTimeoutMs b" for k and fn :: "'e + 'a"
    using open_rejects [OF st lf, of k fn] that rt by simp
  from rej have rej': "\<forall>clk fn.
       atCheck clk - atFailure (fst (last calls)) < resetTimeoutMs b \<and>
       atGate clk - atFailure (fst (last calls)) < resetTimeoutMs b \<longrightarrow>
       execute clk (fn :: 'e + 'a) (executeAll calls b) =
         (Inl (CircuitBreakerError TemporarilyUnavailable
            \<lceil>real_of_int (resetTimeoutMs b - (atGate clk - atFailure (fst (last calls)))) / 1000\<rceil>),
          executeAll calls b, 0)"
    by simp
  show ?thesis
    by (intro conjI) (fact st, fact pre, fact lf, fact rej')
qed

text \<open>
  A breaker with threshold 2 and a timeout of 60 s: two failures open it, one does not,
  and a call 1001 ms after the last failure is turned away with a hint of 59 s.
\<close>

theorem breaker_opens_at_threshold_and_fails_fast_witness:
  "state c1_breaker = CLOSED \<and> failureCount c1_breaker = 0 \<and>
   0 < failureThreshold c1_breaker \<and>
   int (length c1_failures) = failureThreshold c1_breaker \<and>
   state (executeAll c1_failures c1_breaker) = OPEN \<and>
   state (executeAll (take 1 c1_failures) c1_breaker) = CLOSED \<and>
   lastFailureTime (executeAll c1_failures c1_breaker) = Some 200 \<and>
   execute c1_early (Inr 7 :: string + int) (executeAll c1_failures c1_breaker) =
     (Inl (CircuitBreakerError TemporarilyUnavailable 59),
      executeAll c1_failures c1_breaker, 0)"
proof -
  have h: "state c1_breaker = CLOSED" "failureCount c1_breaker = 0"
    "0 < failureThreshold c1_breaker"
    "int (length c1_failures) = failureThreshold c1_breaker"
    "\<forall>c \<in> set c1_failures. isl (snd c)"
    by (simp_all add: c1_breaker_def c1_failures_def new_CircuitBreaker_def)
  note t = breaker_opens_at_threshold_and_fails_fast [OF h]
  have k: "(1::nat) < length c1_failures" by (simp add: c1_failures_def)
  have l: "atFailure (fst (last c1_failures)) = 200" by (simp add: c1_failures_def)
  have r: "resetTimeoutMs c1_breaker = 60000"
    by (simp add: c1_breaker_def new_CircuitBreaker_def)
  have e: "atCheck c1_early - 200 < (60000::int) \<and> atGate c1_early - 200 < (60000::int)"
    by (simp add: c1_early_def)
  have g: "\<lceil>real_of_int (60000 - (atGate c1_early - 200)) / 1000\<rceil> = 59"
    by (simp add: c1_early_def)
  note q = t [unfolded l r, THEN conjunct2, THEN conjunct2, THEN conjunct2, rule_format,
      of c1_early "Inr 7 :: string + int", OF e]
  have x: "execute c1_early (Inr 7 :: string + int) (executeAll c1_failures c1_breaker) =
     (Inl (CircuitBreakerError TemporarilyUnavailable 59),
      executeAll c1_failures c1_breaker, 0)"
    using q unfolding g .
  from t k have p: "state (executeAll (take 1 c1_failures) c1_breaker) = CLOSED"
    by blast
  from t l have f: "lastFailureTime (executeAll c1_failures c1_breaker) = Some 200"
    by simp
  from t have o: "state (executeAll c1_failures c1_breaker) = OPEN"
    by simp
  show ?thesis
    by (intro conjI) (fact h(1), fact h(2), fact h(3), fact h(4), fact o, fact p, fact f, fact x)
qed









section \<open>Properties of the retry executor\<close>

lemma startsWith_iff: "startsWith s p \<longleftrightarrow> (\<exists>b. s = p @ b)"
  by (induction s p rule: startsWith.induct) auto

lemma String_includes_iff: "String_includes s p \<longleftrightarrow> (\<exists>a b. s = a @ p @ b)"
proof (induction s)
  case Nil
  then show ?case by simp
next
  case (Cons c cs)
  have "(\<exists>a b. c # cs = a @ p @ b) \<longleftrightarrow> (\<exists>b. c # cs = p @ b) \<or> (\<exists>a b. cs = a @ p @ b)"
    by (auto simp: Cons_eq_append_conv)
  then show ?case using Cons by (simp add: startsWith_iff)
qed

lemma non_retryable_first:
  "list_ex (String_includes (messageOf err)) NON_RETRYABLE_PATTERNS \<Longrightarrow> \<not> isRetryableError err"
  by (simp add: isRetryableError_def)

lemma unknown_not_retryable:
  "\<not> list_ex (String_includes (messageOf err)) RETRYABLE_PATTERNS \<Longrightarrow> \<not> isRetryableError err"
  by (simp add: isRetryableError_def)

lemma fails_once:
  assumes "1 \<le> maxRetries" "fn 0 = Inl err" "\<not> isRetryableError err"
  shows "executeWithRetry fn maxRetries baseDelayMs = (Inl (Some err), 1, [])"
  using assms by (simp add: executeWithRetry_def retryLoop.simps [of fn maxRetries baseDelayMs 1])

lemma econnreset_retryable:
  assumes "String_includes (messageOf err) ''ECONNRESET''"
    and "\<not> list_ex (String_includes (messageOf err)) NON_RETRYABLE_PATTERNS"
  shows "isRetryableError err"
  using assms by (simp add: isRetryableError_def RETRYABLE_PATTERNS_def)

text \<open>
  Claim C6, as amended. With \<^verbatim>\<open>maxRetries = 3\<close> and any \<^verbatim>\<open>baseDelayMs\<close>, if every
  invocation of the function throws an error whose message contains "ECONNRESET" and none
  of the non-retryable signatures, the function is invoked exactly 3 times, the waits are
  \<^verbatim>\<open>baseDelayMs\<close> and then \<^verbatim>\<open>2 * baseDelayMs\<close>, and the error of the third invocation
  is thrown to the caller.
\<close>

theorem retries_connection_reset_three_times:
  fixes fn :: "nat \<Rightarrow> thrown_value + 'a"
  assumes "\<forall>n. fn n = Inl (err n)"
    and "\<forall>n. String_includes (messageOf (err n)) ''ECONNRESET''"
    and "\<forall>n. \<not> list_ex (String_includes (messageOf (err n))) NON_RETRYABLE_PATTERNS"
  shows "executeWithRetry fn 3 baseDelayMs =
    (Inl (Some (err 2)), 3, [baseDelayMs, 2 * baseDelayMs])"
proof -
  have r: "isRetryableError (err n)" for n
    using assms(2,3) by (intro econnreset_retryable) auto
  have "retryLoop fn 3 baseDelayMs 3 (Some (err 1)) 2 [baseDelayMs, 2 * baseDelayMs] =
      (Inl (Some (err 2)), 3, [baseDelayMs, 2 * baseDelayMs])"
    using assms(1) by (subst retryLoop.simps) (simp add: numeral_3_eq_3)
  moreover have "retryLoop fn 3 baseDelayMs 2 (Some (err 0)) 1 [baseDelayMs] =
      retryLoop fn 3 baseDelayMs 3 (Some (err 1)) 2 [baseDelayMs, 2 * baseDelayMs]"
    using assms(1) r by (subst retryLoop.simps) (simp add: numeral_2_eq_2)
  moreover have "retryLoop fn 3 baseDelayMs 1 None 0 [] =
      retryLoop fn 3 baseDelayMs 2 (Some (err 0)) 1 [baseDelayMs]"
    using assms(1) r by (subst retryLoop.simps) simp
  ultimately show ?thesis by (simp add: executeWithRetry_def)
qed

text \<open>
  A function that always throws "read ECONNRESET", with a base delay of 1 s.
\<close>

theorem retries_connection_reset_three_times_witness:
  "c6_failing 0 = Inl (c6_resets 0) \<and>
   String_includes (messageOf (c6_resets 0)) ''ECONNRESET'' \<and>
   \<not> list_ex (String_includes (messageOf (c6_resets 0))) NON_RETRYABLE_PATTERNS \<and>
   executeWithRetry c6_failing 3 1000 = (Inl (Some c6_reset), 3, [1000, 2000])"
proof -
  have h: "\<forall>n. c6_failing n = Inl (c6_resets n)"
    "\<forall>n. String_includes (messageOf (c6_resets n)) ''ECONNRESET''"
    "\<forall>n. \<not> list_ex (String_includes (messageOf (c6_resets n))) NON_RETRYABLE_PATTERNS"
    by (simp_all add: c6_reset_def NON_RETRYABLE_PATTERNS_def)
  have t: "executeWithRetry c6_failing 3 1000 = (Inl (Some (c6_resets 2)), 3, [1000, 2 * 1000])"
    by (rule retries_connection_reset_three_times [OF h])
  have x: "executeWithRetry c6_failing 3 1000 = (Inl (Some c6_reset), 3, [1000, 2000])"
    unfolding t by simp
  show ?thesis
    by (intro conjI) (rule h(1) [rule_format], rule h(2) [rule_format],
        rule h(3) [rule_format], rule x)
qed

text \<open>
  Claim C6 as stated fails: a message that contains "ECONNRESET" and also the
  non-retryable signature "Forbidden" is not retried. The function is invoked once and
  nothing is waited.
\<close>

theorem mixed_message_not_retried_counterexample:
  "String_includes (messageOf c6_error) ''ECONNRESET'' \<and>
   c6_fn 0 = Inl c6_error \<and> c6_fn 1 = Inl c6_error \<and> c6_fn 2 = Inl c6_error \<and>
   executeWithRetry c6_fn 3 1000 = (Inl (Some c6_error), 1, [])"
  by (simp add: c6_error_def executeWithRetry_def retryLoop.simps [of c6_fn 3 1000 1]
      isRetryableError_def NON_RETRYABLE_PATTERNS_def)

text \<open>
  Claim C7. With \<^verbatim>\<open>maxRetries \<ge> 1\<close>, if the first invocation throws an error whose
  message contains a non-retryable signature, or contains no retryable signature, the
  error is judged non-retryable, the function is invoked exactly once, that error is
  thrown to the caller, and no delay is waited.
\<close>

theorem non_retryable_error_fails_at_once:
  fixes fn :: "nat \<Rightarrow> thrown_value + 'a"
  assumes "1 \<le> maxRetries" and "fn 0 = Inl err"
    and "list_ex (String_includes (messageOf err)) NON_RETRYABLE_PATTERNS \<or>
         \<not> list_ex (String_includes (messageOf err)) RETRYABLE_PATTERNS"
  shows "\<not> isRetryableError err \<and>
    executeWithRetry fn maxRetries baseDelayMs = (Inl (Some err), 1, [])"
  using assms fails_once [of maxRetries fn err baseDelayMs]
    non_retryable_first [of err] unknown_not_retryable [of err]
  by blast


text \<open>
  One error with a client-error signature and one that matches neither list, each with
  five attempts allowed.
\<close>

theorem non_retryable_error_fails_at_once_witness:
  "(1::int) \<le> 5 \<and> c7_fn 0 = Inl c7_error \<and>
   list_ex (String_includes (messageOf c7_error)) NON_RETRYABLE_PATTERNS \<and>
   executeWithRetry c7_fn 5 1000 = (Inl (Some c7_error), 1, []) \<and>
   c7_unknown_fn 0 = Inl c7_unknown \<and>
   \<not> list_ex (String_includes (messageOf c7_unknown)) NON_RETRYABLE_PATTERNS \<and>
   \<not> list_ex (String_includes (messageOf c7_unknown)) RETRYABLE_PATTERNS \<and>
   executeWithRetry c7_unknown_fn 5 1000 = (Inl (Some c7_unknown), 1, [])"
proof -
  have a: "(1::int) \<le> 5" by simp
  have f: "c7_fn 0 = Inl c7_error" by simp
  have p: "list_ex (String_includes (messageOf c7_error)) NON_RETRYABLE_PATTERNS"
    by (simp add: c7_error_def NON_RETRYABLE_PATTERNS_def)
  have g: "c7_unknown_fn 0 = Inl c7_unknown" by simp
  have n: "\<not> list_ex (String_includes (messageOf c7_unknown)) NON_RETRYABLE_PATTERNS"
    by (simp add: c7_unknown_def NON_RETRYABLE_PATTERNS_def)
  have q: "\<not> list_ex (String_includes (messageOf c7_unknown)) RETRYABLE_PATTERNS"
    by (simp add: c7_unknown_def RETRYABLE_PATTERNS_def)
  note t1 = non_retryable_error_fails_at_once
    [where fn = c7_fn and err = c7_error and maxRetries = 5 and baseDelayMs = 1000,
      OF a f disjI1 [OF p]]
  note t2 = non_retryable_error_fails_at_once
    [where fn = c7_unknown_fn and err = c7_unknown and maxRetries = 5 and baseDelayMs = 1000,
      OF a g disjI2 [OF q]]
  show ?thesis
    by (intro conjI) (rule a, rule f, rule p, rule t1 [THEN conjunct2], rule g, rule n,
        rule q, rule t2 [THEN conjunct2])
qed

text \<open>
  Claim C10. An error whose message contains a non-retryable signature \<open>p\<close> and a
  retryable signature \<open>q\<close> is judged non-retryable: the non-retryable list is searched
  first. When the function throws it at the first of at least one attempt, the function
  is invoked exactly once and the error is thrown to the caller with no wait.
\<close>

theorem non_retryable_signature_takes_precedence:
  fixes fn :: "nat \<Rightarrow> thrown_value + 'a"
  assumes "p \<in> set NON_RETRYABLE_PATTERNS" and "String_includes (messageOf err) p"
    and "q \<in> set RETRYABLE_PATTERNS" and "String_includes (messageOf err) q"
  shows "\<not> isRetryableError err \<and>
    (1 \<le> maxRetries \<and> fn 0 = Inl err \<longrightarrow>
       executeWithRetry fn maxRetries baseDelayMs = (Inl (Some err), 1, []))"
proof -
  have "list_ex (String_includes (messageOf err)) NON_RETRYABLE_PATTERNS"
    using assms(1,2) by (auto simp: list_ex_iff)
  then have no: "\<not> isRetryableError err" by (rule non_retryable_first)
  then have "executeWithRetry fn maxRetries baseDelayMs = (Inl (Some err), 1, [])"
    if "1 \<le> maxRetries" "fn 0 = Inl err"
    using fails_once [of maxRetries fn err baseDelayMs] that by simp
  with no show ?thesis by simp
qed

text \<open>
  The message "Invalid credentials (HTTP 500)" contains a signature of each list.
\<close>

theorem non_retryable_signature_takes_precedence_witness:
  "''Invalid credentials'' \<in> set NON_RETRYABLE_PATTERNS \<and>
   String_includes (messageOf c10_error) ''Invalid credentials'' \<and>
   ''500'' \<in> set RETRYABLE_PATTERNS \<and>
   String_includes (messageOf c10_error) ''500'' \<and>
   (1::int) \<le> 3 \<and> c10_fn 0 = Inl c10_error \<and>
   \<not> isRetryableError c10_error \<and>
   executeWithRetry c10_fn 3 1000 = (Inl (Some c10_error), 1, [])"
proof -
  have h: "''Invalid credentials'' \<in> set NON_RETRYABLE_PATTERNS"
    "String_includes (messageOf c10_error) ''Invalid credentials''"
    "''500'' \<in> set RETRYABLE_PATTERNS"
    "String_includes (messageOf c10_error) ''500''"
    by (simp_all add: c10_error_def NON_RETRYABLE_PATTERNS_def RETRYABLE_PATTERNS_def)
  have g: "(1::int) \<le> 3" "c10_fn 0 = Inl c10_error"
    by simp_all
  note t = non_retryable_signature_takes_precedence
    [where p = "''Invalid credentials''" and q = "''500''" and err = c10_error
       and fn = c10_fn and maxRetries = 3 and baseDelayMs = 1000, OF h]
  show ?thesis
    by (intro conjI) (rule h(1), rule h(2), rule h(3), rule h(4), rule g(1), rule g(2),
        rule t [THEN conjunct1],
        rule t [THEN conjunct2, rule_format, OF conjI [OF g]])
qed

section \<open>Properties of the caches\<close>

lemma map_of_without [simp]: "map_of (filter (\<lambda>kv. fst kv \<noteq> k) c) k = None"
  by (induction c) auto

lemma LRU_set_lookup: "map_of (LRU_set k e c) k = Some e"
  by (simp add: LRU_set_def MAX_SIZE_def take_Cons')

lemma LRU_set_only: "filter (\<lambda>kv. fst kv = k) (LRU_set k e c) = [(k, e)]"
proof -
  have "filter (\<lambda>kv. fst kv = k) (take n (filter (\<lambda>kv. fst kv \<noteq> k) c)) = []" for n
    by (auto simp: filter_empty_conv dest!: in_set_takeD)
  then show ?thesis
    by (simp add: LRU_set_def MAX_SIZE_def take_Cons')
qed

lemma LRU_get_found:
  "map_of c k = Some e \<Longrightarrow> LRU_get k c = (Some e, (k, e) # filter (\<lambda>kv. fst kv \<noteq> k) c)"
  by (simp add: LRU_get_def)

lemma LRU_get_missing: "map_of c k = None \<Longrightarrow> LRU_get k c = (None, c)"
  by (simp add: LRU_get_def)

lemma LRU_delete_front:
  "snd (LRU_delete k ((k, e) # filter (\<lambda>kv. fst kv \<noteq> k) c)) = filter (\<lambda>kv. fst kv \<noteq> k) c"
  by (simp add: LRU_delete_def)

lemma stats_keys:
  "set (snd (fst (MemoryCache_stats now m))) =
     fst ` {kv \<in> set (cache m). \<not> now > expiresAt (snd kv)}"
  by (simp add: MemoryCache_stats_def MemoryCache_clearExpired_def Let_def)

lemma get_absent_or_expired:
  assumes "\<forall>e. map_of (cache m) key = Some e \<longrightarrow> expiresAt e < now"
  shows "fst (MemoryCache_get now key m) = None"
    and "misses (snd (MemoryCache_get now key m)) = misses m + 1"
    and "hits (snd (MemoryCache_get now key m)) = hits m"
    and "map_of (cache (snd (MemoryCache_get now key m))) key = None"
  using assms
  by (cases "map_of (cache m) key";
      simp add: MemoryCache_get_def LRU_get_found LRU_get_missing LRU_delete_front)+

lemma stats_without:
  "map_of (cache m) key = None \<Longrightarrow> key \<notin> set (snd (fst (MemoryCache_stats now m)))"
  by (auto simp: stats_keys map_of_eq_None_iff)


text \<open>
  Claim C4, as amended. For every key set at time \<open>t0\<close> with any \<open>ttlMs\<close> (zero and
  negative ones too) and read at a time \<open>t1\<close> with \<open>t1 - t0 > ttlMs\<close>: \<^verbatim>\<open>get\<close> returns
  \<^verbatim>\<open>null\<close>, adds exactly one to the misses and nothing to the hits, and the key is absent
  from the keys that \<^verbatim>\<open>stats()\<close> reports afterwards, and also from those it reports at
  \<open>t1\<close> when no \<^verbatim>\<open>get\<close> came first.
\<close>

theorem expired_entry_is_a_miss:
  assumes "ttlMs < t1 - t0"
    and "m1 = MemoryCache_set t0 key d ttlMs m"
    and "MemoryCache_get t1 key m1 = (res, m2)"
  shows "res = None \<and> misses m2 = misses m1 + 1 \<and> hits m2 = hits m1 \<and>
    key \<notin> set (snd (fst (MemoryCache_stats t2 m2))) \<and>
    key \<notin> set (snd (fst (MemoryCache_stats t1 m1)))"
proof -
  have stored: "map_of (cache m1) key = Some \<lparr>data = d, createdAt = t0, expiresAt = t0 + ttlMs\<rparr>"
    by (simp add: assms(2) MemoryCache_set_def LRU_set_lookup)
  then have old: "\<forall>e. map_of (cache m1) key = Some e \<longrightarrow> expiresAt e < t1"
    using assms(1) by auto
  note g = get_absent_or_expired [OF old]
  have gone: "key \<notin> set (snd (fst (MemoryCache_stats t2 m2)))"
    using g(4) assms(3) by (intro stats_without) simp
  have "key \<notin> fst ` {kv \<in> set (cache m1). \<not> t1 > expiresAt (snd kv)}"
    using assms(1)
    by (auto simp: assms(2) MemoryCache_set_def LRU_set_def dest!: in_set_takeD)
  then have evicted: "key \<notin> set (snd (fst (MemoryCache_stats t1 m1)))"
    by (simp add: stats_keys)
  show ?thesis using g(1-3) assms(3) gone evicted by simp
qed

text \<open>
  An entry set at time 0 for 1000 ms and read at time 1100.
\<close>

theorem expired_entry_is_a_miss_witness:
  "(1000::int) < 1100 - 0 \<and>
   MemoryCache_get 1100 ''x'' c4_memory = (None, new_MemoryCache\<lparr>misses := 1\<rparr>) \<and>
   misses (new_MemoryCache\<lparr>misses := 1\<rparr> :: int MemoryCache) = misses c4_memory + 1 \<and>
   ''x'' \<notin> set (snd (fst (MemoryCache_stats 1200 (new_MemoryCache\<lparr>misses := 1\<rparr> :: int MemoryCache)))) \<and>
   ''x'' \<notin> set (snd (fst (MemoryCache_stats 1100 c4_memory)))"
proof -
  have a: "(1000::int) < 1100 - 0" by simp
  have g: "MemoryCache_get 1100 ''x'' c4_memory = (None, new_MemoryCache\<lparr>misses := 1\<rparr>)"
    by (simp add: c4_memory_def MemoryCache_get_def MemoryCache_set_def LRU_set_def
        LRU_get_def LRU_delete_def MAX_SIZE_def new_MemoryCache_def)
  note t = expired_entry_is_a_miss [OF a c4_memory_def g, of 1200]
  show ?thesis
    by (intro conjI) (rule a, rule g, rule t [THEN conjunct2, THEN conjunct1],
        rule t [THEN conjunct2, THEN conjunct2, THEN conjunct2, THEN conjunct1],
        rule t [THEN conjunct2, THEN conjunct2, THEN conjunct2, THEN conjunct2])
qed

text \<open>
  Claim C4 as stated fails where the elapsed time equals the time to live: \<^verbatim>\<open>get\<close>
  treats an entry as expired only when \<^verbatim>\<open>Date.now() > entry.expiresAt\<close>. An entry set with
  \<open>ttlMs = 1000\<close> and read 1000 ms later is returned and counted as a hit, and
  \<^verbatim>\<open>stats()\<close> still lists its key; an entry set with \<open>ttlMs = 0\<close> and read in the same
  millisecond is returned too.
\<close>

theorem entry_at_its_expiry_time_is_a_hit_counterexample:
  "MemoryCache_get 1000 ''x'' c4_memory = (Some 42, c4_memory\<lparr>hits := 1\<rparr>) \<and>
   misses (c4_memory\<lparr>hits := 1\<rparr>) = misses c4_memory \<and>
   ''x'' \<in> set (snd (fst (MemoryCache_stats 1000 c4_memory))) \<and>
   fst (MemoryCache_get 5 ''x'' c4_zero_ttl) = Some 42"
  by (simp add: c4_memory_def c4_zero_ttl_def MemoryCache_get_def MemoryCache_set_def
      LRU_set_def LRU_get_def LRU_delete_def MAX_SIZE_def new_MemoryCache_def
      MemoryCache_stats_def MemoryCache_clearExpired_def)

text \<open>
  Claim C8, as amended. For every key, data and \<open>ttlMs\<close>: after \<^verbatim>\<open>set\<close> of the memory
  cache the entry found under the key is the new one, whatever was there before, with
  \<^verbatim>\<open>createdAt = now\<close> and \<^verbatim>\<open>expiresAt = now + ttlMs\<close>; the same holds for the Redis cache
  when the \<^verbatim>\<open>SET\<close> command resolves, and a rejected command leaves the cache as it was.
  The written entry satisfies \<^verbatim>\<open>expiresAt \<ge> createdAt\<close> whenever \<open>ttlMs \<ge> 0\<close>.
\<close>

theorem set_writes_a_new_entry:
  "(\<exists>e. map_of (cache (MemoryCache_set now key d ttlMs m)) key = Some e \<and>
        filter (\<lambda>kv. fst kv = key) (cache (MemoryCache_set now key d ttlMs m)) = [(key, e)] \<and>
        data e = d \<and> createdAt e = now \<and> expiresAt e = now + ttlMs \<and>
        (0 \<le> ttlMs \<longrightarrow> createdAt e \<le> expiresAt e)) \<and>
   (\<exists>e. client (RedisCache_set True now key d ttlMs r) (prefixKey key) = Some (e, ttlMs) \<and>
        data e = d \<and> createdAt e = now \<and> expiresAt e = now + ttlMs \<and>
        (0 \<le> ttlMs \<longrightarrow> createdAt e \<le> expiresAt e)) \<and>
   RedisCache_set False now key d ttlMs r = r"
proof -
  let ?e = "\<lparr>data = d, createdAt = now, expiresAt = now + ttlMs\<rparr>"
  have found: "map_of (cache (MemoryCache_set now key d ttlMs m)) key = Some ?e"
    by (simp add: MemoryCache_set_def LRU_set_lookup)
  have once: "filter (\<lambda>kv. fst kv = key) (cache (MemoryCache_set now key d ttlMs m)) = [(key, ?e)]"
    by (simp add: MemoryCache_set_def LRU_set_only)
  have sent: "client (RedisCache_set True now key d ttlMs r) (prefixKey key) = Some (?e, ttlMs)"
    by (simp add: RedisCache_set_def client_set_def)
  have dropped: "RedisCache_set False now key d ttlMs r = r"
    by (simp add: RedisCache_set_def client_set_def)
  have inv: "0 \<le> ttlMs \<longrightarrow> createdAt ?e \<le> expiresAt ?e"
    by simp
  from found once inv have "\<exists>e. map_of (cache (MemoryCache_set now key d ttlMs m)) key = Some e \<and>
        filter (\<lambda>kv. fst kv = key) (cache (MemoryCache_set now key d ttlMs m)) = [(key, e)] \<and>
        data e = d \<and> createdAt e = now \<and> expiresAt e = now + ttlMs \<and>
        (0 \<le> ttlMs \<longrightarrow> createdAt e \<le> expiresAt e)"
    by (intro exI [of _ ?e]) simp
  moreover from sent inv have "\<exists>e. client (RedisCache_set True now key d ttlMs r) (prefixKey key) = Some (e, ttlMs) \<and>
        data e = d \<and> createdAt e = now \<and> expiresAt e = now + ttlMs \<and>
        (0 \<le> ttlMs \<longrightarrow> createdAt e \<le> expiresAt e)"
    by (intro exI [of _ ?e]) simp
  ultimately show ?thesis using dropped by blast
qed

text \<open>
  A key that already has an entry, on both caches, set again at time 2000 for 500 ms.
\<close>

theorem set_writes_a_new_entry_witness:
  "map_of (cache c8_before) ''k'' = Some c8_old \<and>
   map_of (cache (MemoryCache_set 2000 ''k'' 8 500 c8_before)) ''k'' = Some c8_new \<and>
   filter (\<lambda>kv. fst kv = ''k'') (cache (MemoryCache_set 2000 ''k'' 8 500 c8_before)) =
     [(''k'', c8_new)] \<and>
   (0::int) \<le> 500 \<and> createdAt c8_new \<le> expiresAt c8_new \<and>
   client (RedisCache_set True 2000 ''k'' 8 500 c8_redis) (prefixKey ''k'') = Some (c8_new, 500) \<and>
   RedisCache_set False 2000 ''k'' 8 500 c8_redis = c8_redis"
proof -
  note t = set_writes_a_new_entry [of 2000 "''k''" 8 500 c8_before c8_redis]
  from t obtain e where e: "map_of (cache (MemoryCache_set 2000 ''k'' 8 500 c8_before)) ''k'' = Some e"
    "filter (\<lambda>kv. fst kv = ''k'') (cache (MemoryCache_set 2000 ''k'' 8 500 c8_before)) = [(''k'', e)]"
    "data e = 8" "createdAt e = 2000" "expiresAt e = 2000 + 500"
    by blast
  from t obtain e' where e': "client (RedisCache_set True 2000 ''k'' 8 500 c8_redis) (prefixKey ''k'') = Some (e', 500)"
    "data e' = 8" "createdAt e' = 2000" "expiresAt e' = 2000 + 500"
    by blast
  have "e = c8_new" "e' = c8_new" using e(3-5) e'(2-4) by (simp_all add: c8_new_def)
  moreover have "map_of (cache c8_before) ''k'' = Some c8_old"
    by (simp add: c8_before_def)
  ultimately show ?thesis using e(1,2) e'(1) t by (simp add: c8_new_def)
qed

text \<open>
  Claim C8 as stated fails at a negative \<open>ttlMs\<close>: the memory cache stores an entry that
  expires before it was created. And the replacement is not unconditional on the Redis
  cache: when the command is rejected the old entry stays.
\<close>

theorem negative_ttl_breaks_invariant_counterexample:
  "map_of (cache c8_memory) ''k'' = Some c8_entry \<and>
   expiresAt c8_entry < createdAt c8_entry \<and>
   client c8_redis (prefixKey ''k'') = Some (c8_old, 5000) \<and>
   client (RedisCache_set False 2000 ''k'' 8 500 c8_redis) (prefixKey ''k'') = Some (c8_old, 5000)"
  by (simp add: c8_memory_def c8_entry_def c8_redis_def MemoryCache_set_def LRU_set_def
      MAX_SIZE_def new_MemoryCache_def RedisCache_set_def client_set_def new_RedisCache_def)

lemma has_as_lookup:
  "fst (MemoryCache_has now key m) = (\<exists>e. map_of (cache m) key = Some e \<and> now \<le> expiresAt e)"
  by (cases "map_of (cache m) key")
    (auto simp: MemoryCache_has_def LRU_get_found LRU_get_missing)

lemma get_as_lookup:
  "(fst (MemoryCache_get now key m) \<noteq> None) =
     (\<exists>e. map_of (cache m) key = Some e \<and> now \<le> expiresAt e)"
  by (cases "map_of (cache m) key")
    (auto simp: MemoryCache_get_def LRU_get_found LRU_get_missing)

lemma has_keeps_counters:
  "hits (snd (MemoryCache_has now key m)) = hits m \<and>
   misses (snd (MemoryCache_has now key m)) = misses m"
  by (cases "map_of (cache m) key")
    (auto simp: MemoryCache_has_def LRU_get_found LRU_get_missing)

text \<open>
  Claim C9, as amended. \<^verbatim>\<open>has\<close> of the memory cache returns true exactly when the key
  has an entry with \<^verbatim>\<open>now \<le> expiresAt\<close>, which is exactly when \<^verbatim>\<open>get\<close> returns a
  value. \<^verbatim>\<open>has\<close> of the Redis cache returns true exactly when the \<^verbatim>\<open>EXISTS\<close> command
  resolves and the server holds the key; it does not look at \<^verbatim>\<open>expiresAt\<close>. Neither
  changes the hits or the misses (the Redis one changes nothing at all).
\<close>

theorem has_checks_without_counting:
  "fst (MemoryCache_has now key m) =
     (\<exists>e. map_of (cache m) key = Some e \<and> now \<le> expiresAt e) \<and>
   fst (MemoryCache_has now key m) = (fst (MemoryCache_get now key m) \<noteq> None) \<and>
   hits (snd (MemoryCache_has now key m)) = hits m \<and>
   misses (snd (MemoryCache_has now key m)) = misses m \<and>
   fst (RedisCache_has existsOk key r) = (existsOk \<and> client r (prefixKey key) \<noteq> None) \<and>
   snd (RedisCache_has existsOk key r) = r"
proof -
  have "fst (RedisCache_has existsOk key r) = (existsOk \<and> client r (prefixKey key) \<noteq> None)"
    and "snd (RedisCache_has existsOk key r) = r"
    by (simp_all add: RedisCache_has_def client_exists_def)
  then show ?thesis
    using has_as_lookup [of now key m] get_as_lookup [of now key m]
      has_keeps_counters [of now key m]
    by simp
qed

text \<open>
  Claim C9 as stated fails on the Redis cache. An entry set at time 0 with
  \<open>ttlMs = 1000\<close> that the server still holds at time 1001 (its \<^verbatim>\<open>PX\<close> time runs from
  the arrival of the command) is past its \<^verbatim>\<open>expiresAt\<close>: \<^verbatim>\<open>get\<close> returns \<^verbatim>\<open>null\<close> for
  it, yet \<^verbatim>\<open>has\<close> returns true. And when the command is rejected \<^verbatim>\<open>has\<close> returns
  false although the entry is there.
\<close>

theorem redis_has_ignores_expiry_counterexample:
  "client c9_redis (prefixKey ''k'') = Some (c9_entry, 1000) \<and>
   expiresAt c9_entry < 1001 \<and>
   fst (RedisCache_has True ''k'' c9_redis) = True \<and>
   fst (RedisCache_get True True 1001 ''k'' c9_redis) = None \<and>
   fst (RedisCache_has False ''k'' c9_redis) = False"
  by (simp add: c9_redis_def c9_entry_def RedisCache_has_def RedisCache_get_def
      RedisCache_set_def client_exists_def client_get_def client_set_def client_del_def
      new_RedisCache_def no_keys_def)


text \<open>
  An entry set at time 0 for 1000 ms, asked for at its expiry time and one millisecond
  later.
\<close>

theorem has_checks_without_counting_witness:
  "fst (MemoryCache_has 1000 ''k'' c9_memory) = True \<and>
   fst (MemoryCache_has 1001 ''k'' c9_memory) = False \<and>
   hits (snd (MemoryCache_has 1000 ''k'' c9_memory)) = 0 \<and>
   misses (snd (MemoryCache_has 1001 ''k'' c9_memory)) = 0 \<and>
   RedisCache_has True ''k'' c9_redis = (True, c9_redis)"
proof -
  have m: "map_of (cache c9_memory) ''k'' = Some c9_entry" "hits c9_memory = 0"
    "misses c9_memory = 0"
    by (simp_all add: c9_memory_def c9_entry_def MemoryCache_set_def LRU_set_def MAX_SIZE_def
        new_MemoryCache_def)
  have r: "client c9_redis (prefixKey ''k'') \<noteq> None"
    by (simp add: c9_redis_def RedisCache_set_def client_set_def new_RedisCache_def)
  note t1 = has_checks_without_counting [of 1000 "''k''" c9_memory True c9_redis]
  note t2 = has_checks_without_counting [of 1001 "''k''" c9_memory True c9_redis]
  have a: "fst (MemoryCache_has 1000 ''k'' c9_memory) = True"
    using t1 m by (simp add: c9_entry_def)
  have b: "fst (MemoryCache_has 1001 ''k'' c9_memory) = False"
    using t2 m by (simp add: c9_entry_def)
  have c: "hits (snd (MemoryCache_has 1000 ''k'' c9_memory)) = 0"
    using t1 m by simp
  have d: "misses (snd (MemoryCache_has 1001 ''k'' c9_memory)) = 0"
    using t2 m by simp
  have e: "RedisCache_has True ''k'' c9_redis = (True, c9_redis)"
    using t1 r by (simp add: prod_eq_iff)
  show ?thesis
    by (intro conjI) (rule a, rule b, rule c, rule d, rule e)
qed



lemma fetchFresh_memory:
  fixes refreshFn :: "nat \<Rightarrow> 'e + 'a"
  assumes "map_of (cache m) key = None"
    and "MemoryCache_fetchFresh atSet key refreshFn ttlMs m = (res, m', calls)"
  shows "calls = [Awaited] \<and> misses m' = misses m + 1 \<and> hits m' = hits m \<and>
    (\<forall>v. refreshFn 0 = Inr v \<longrightarrow>
       res = Inr v \<and>
       map_of (cache m') key = Some \<lparr>data = v, createdAt = atSet, expiresAt = atSet + ttlMs\<rparr>) \<and>
    (\<forall>x. refreshFn 0 = Inl x \<longrightarrow> res = Inl x \<and> map_of (cache m') key = None)"
  using assms
  by (cases "refreshFn 0")
    (auto simp: MemoryCache_fetchFresh_def MemoryCache_set_def LRU_set_lookup)

text \<open>
  Claim C3, as amended. Memory cache: when the key has no entry, or an entry with
  \<^verbatim>\<open>now \<ge> entry.createdAt + ttlMs * refreshThresholdPercent / 100\<close> and
  \<^verbatim>\<open>now \<ge> entry.expiresAt\<close>, \<^verbatim>\<open>getWithRefresh\<close> counts exactly one miss and no hit and
  awaits \<^verbatim>\<open>refreshFn\<close> exactly once; a value is stored under the key by \<^verbatim>\<open>set\<close> with the
  given \<open>ttlMs\<close> and returned; a rejection is thrown to the caller and the key has no
  entry afterwards. Redis cache: under the same condition on what the \<^verbatim>\<open>GET\<close> command
  returns, when \<^verbatim>\<open>refreshFn\<close> resolves, one miss is counted, \<^verbatim>\<open>refreshFn\<close> was awaited
  exactly once, and the value is passed to \<^verbatim>\<open>set\<close> with the given \<open>ttlMs\<close> and returned.
\<close>

theorem missing_or_expired_entry_is_fetched:
  fixes refreshFn :: "nat \<Rightarrow> 'e + 'a"
  shows "((\<forall>e. map_of (cache m) key = Some e \<longrightarrow>
        \<not> real_of_int now <
           real_of_int (createdAt e) + real_of_int ttlMs * real_of_int refreshThresholdPercent / 100 \<and>
        \<not> now < expiresAt e) \<and>
      MemoryCache_getWithRefresh now atSet key refreshFn ttlMs refreshThresholdPercent m =
        (res, m', calls) \<longrightarrow>
      calls = [Awaited] \<and> misses m' = misses m + 1 \<and> hits m' = hits m \<and>
      (\<forall>v. refreshFn 0 = Inr v \<longrightarrow>
         res = Inr v \<and>
         map_of (cache m') key =
           Some \<lparr>data = v, createdAt = atSet, expiresAt = atSet + ttlMs\<rparr>) \<and>
      (\<forall>x. refreshFn 0 = Inl x \<longrightarrow> res = Inl x \<and> map_of (cache m') key = None)) \<and>
    ((\<forall>e px. client r (prefixKey key) = Some (e, px) \<longrightarrow>
        \<not> real_of_int now <
           real_of_int (createdAt e) + real_of_int ttlMs * real_of_int refreshThresholdPercent / 100 \<and>
        \<not> now < expiresAt e) \<and>
      refreshFn 0 = Inr v' \<longrightarrow>
      RedisCache_getWithRefresh True setOk now atSet key refreshFn ttlMs
        refreshThresholdPercent r =
        (Inr v', RedisCache_set setOk atSet key v' ttlMs (r\<lparr>misses := misses r + 1\<rparr>),
         [Awaited]))"
proof (rule conjI; rule impI; elim conjE)
  assume old: "\<forall>e. map_of (cache m) key = Some e \<longrightarrow>
        \<not> real_of_int now <
           real_of_int (createdAt e) + real_of_int ttlMs * real_of_int refreshThresholdPercent / 100 \<and>
        \<not> now < expiresAt e"
    and run: "MemoryCache_getWithRefresh now atSet key refreshFn ttlMs refreshThresholdPercent m =
        (res, m', calls)"
  show "calls = [Awaited] \<and> misses m' = misses m + 1 \<and> hits m' = hits m \<and>
      (\<forall>v. refreshFn 0 = Inr v \<longrightarrow>
         res = Inr v \<and>
         map_of (cache m') key =
           Some \<lparr>data = v, createdAt = atSet, expiresAt = atSet + ttlMs\<rparr>) \<and>
      (\<forall>x. refreshFn 0 = Inl x \<longrightarrow> res = Inl x \<and> map_of (cache m') key = None)"
  proof (cases "map_of (cache m) key")
    case None
    then have "MemoryCache_fetchFresh atSet key refreshFn ttlMs m = (res, m', calls)"
      using run by (simp add: MemoryCache_getWithRefresh_def LRU_get_missing)
    from fetchFresh_memory [OF None this] show ?thesis .
  next
    case (Some e)
    let ?m1 = "m\<lparr>cache := filter (\<lambda>kv. fst kv \<noteq> key) (cache m)\<rparr>"
    have "MemoryCache_fetchFresh atSet key refreshFn ttlMs ?m1 = (res, m', calls)"
      using run old Some
      by (simp add: MemoryCache_getWithRefresh_def LRU_get_found LRU_delete_front
          refreshThreshold_def)
    moreover have "map_of (cache ?m1) key = None" by simp
    ultimately show ?thesis using fetchFresh_memory [of ?m1 key atSet refreshFn ttlMs res m' calls]
      by simp
  qed
next
  assume old: "\<forall>e px. client r (prefixKey key) = Some (e, px) \<longrightarrow>
        \<not> real_of_int now <
           real_of_int (createdAt e) + real_of_int ttlMs * real_of_int refreshThresholdPercent / 100 \<and>
        \<not> now < expiresAt e"
    and ok: "refreshFn 0 = Inr v'"
  show "RedisCache_getWithRefresh True setOk now atSet key refreshFn ttlMs
        refreshThresholdPercent r =
        (Inr v', RedisCache_set setOk atSet key v' ttlMs (r\<lparr>misses := misses r + 1\<rparr>),
         [Awaited])"
  proof (cases "client r (prefixKey key)")
    case None
    then show ?thesis using ok
      by (simp add: RedisCache_getWithRefresh_def client_get_def RedisCache_fetchFresh_def)
  next
    case (Some ep)
    then obtain e px where "client r (prefixKey key) = Some (e, px)" by (cases ep) auto
    then show ?thesis using ok old
      by (simp add: RedisCache_getWithRefresh_def client_get_def RedisCache_fetchFresh_def
          refreshThreshold_def)
  qed
qed

text \<open>
  Claim C3 as stated fails for a hard-expired entry that the call still takes for fresh:
  the freshness test comes first and uses the \<open>ttlMs\<close> of the call, not the one the entry
  was stored with. An entry stored with \<open>ttlMs = 100\<close> at time 0 and asked for at time 500
  with \<open>ttlMs = 1000\<close> is returned as a hit; no miss is counted and \<^verbatim>\<open>refreshFn\<close> is not
  invoked.
\<close>

theorem expired_entry_in_freshness_window_is_a_hit_counterexample:
  "map_of (cache c3_memory) ''k'' = Some c3_entry \<and> expiresAt c3_entry \<le> 500 \<and>
   MemoryCache_getWithRefresh 500 501 ''k'' c3_refresh 1000 80 c3_memory =
     (Inr 1, c3_memory\<lparr>hits := 1\<rparr>, []) \<and>
   misses (c3_memory\<lparr>hits := 1\<rparr>) = misses c3_memory"
  by (simp add: c3_memory_def c3_entry_def MemoryCache_getWithRefresh_def MemoryCache_set_def
      LRU_set_def LRU_get_def MAX_SIZE_def new_MemoryCache_def refreshThreshold_def)

text \<open>
  The Redis cache when \<^verbatim>\<open>refreshFn\<close> rejects on the miss path: the \<^verbatim>\<open>catch\<close> clause
  written for errors of the client receives the rejection, counts a second miss and
  invokes \<^verbatim>\<open>refreshFn\<close> a second time. A second outcome that is a value is stored and
  returned; a second rejection is the one thrown.
\<close>

lemma RedisCache_getWithRefresh_catches_refreshFn:
  "RedisCache_getWithRefresh True True 500 501 ''k'' c3_flaky 100 80 c3_redis =
     (Inr 2, (RedisCache_set True 501 ''k'' 2 100 c3_redis)\<lparr>misses := 2\<rparr>, [Awaited, Awaited]) \<and>
   RedisCache_getWithRefresh True True 500 501 ''k'' c3_rejecting 100 80 c3_redis =
     (Inl ''ETIMEDOUT'', c3_redis\<lparr>misses := 2\<rparr>, [Awaited, Awaited])"
  by (simp add: c3_redis_def RedisCache_getWithRefresh_def RedisCache_fetchFresh_def
      RedisCache_fetchDirectly_def RedisCache_set_def client_get_def client_set_def
      new_RedisCache_def no_keys_def)


text \<open>
  An entry that expired at time 100, asked for at time 500 with the time to live it was
  stored with; and a Redis cache with no key.
\<close>

theorem missing_or_expired_entry_is_fetched_witness:
  "MemoryCache_getWithRefresh 500 501 ''k'' c3_refresh 100 80 c3_memory =
     (Inr 2, c3_after, [Awaited]) \<and>
   misses c3_after = misses c3_memory + 1 \<and> hits c3_after = hits c3_memory \<and>
   map_of (cache c3_after) ''k'' = Some c3_fetched \<and>
   MemoryCache_getWithRefresh 500 501 ''k'' c3_rejecting 100 80 c3_memory =
     (Inl ''ETIMEDOUT'', c3_failed, [Awaited]) \<and>
   misses c3_failed = misses c3_memory + 1 \<and>
   map_of (cache c3_failed) ''k'' = None \<and>
   RedisCache_getWithRefresh True True 500 501 ''k'' c3_refresh 100 80 c3_redis =
     (Inr 2, RedisCache_set True 501 ''k'' 2 100 (c3_redis\<lparr>misses := misses c3_redis + 1\<rparr>),
      [Awaited])"
proof -
  have old: "\<forall>e. map_of (cache c3_memory) ''k'' = Some e \<longrightarrow>
        \<not> real_of_int 500 < real_of_int (createdAt e) + real_of_int 100 * real_of_int 80 / 100 \<and>
        \<not> 500 < expiresAt e"
    by (simp add: c3_memory_def MemoryCache_set_def LRU_set_def MAX_SIZE_def
        new_MemoryCache_def)
  have none: "\<forall>e px. client c3_redis (prefixKey ''k'') = Some (e, px) \<longrightarrow>
        \<not> real_of_int 500 < real_of_int (createdAt e) + real_of_int 100 * real_of_int 80 / 100 \<and>
        \<not> 500 < expiresAt e"
    by (simp add: c3_redis_def new_RedisCache_def no_keys_def)
  have run1: "MemoryCache_getWithRefresh 500 501 ''k'' c3_refresh 100 80 c3_memory =
     (Inr 2, c3_after, [Awaited])"
    by (simp add: c3_memory_def c3_after_def c3_fetched_def MemoryCache_getWithRefresh_def
        MemoryCache_fetchFresh_def MemoryCache_set_def LRU_set_def LRU_get_def LRU_delete_def
        MAX_SIZE_def new_MemoryCache_def refreshThreshold_def)
  have run2: "MemoryCache_getWithRefresh 500 501 ''k'' c3_rejecting 100 80 c3_memory =
     (Inl ''ETIMEDOUT'', c3_failed, [Awaited])"
    by (simp add: c3_memory_def c3_failed_def MemoryCache_getWithRefresh_def
        MemoryCache_fetchFresh_def MemoryCache_set_def LRU_set_def LRU_get_def LRU_delete_def
        MAX_SIZE_def new_MemoryCache_def refreshThreshold_def)
  have f: "c3_refresh 0 = Inr 2" "c3_rejecting 0 = Inl ''ETIMEDOUT''" by simp_all
  note t1 = missing_or_expired_entry_is_fetched
    [where refreshFn = c3_refresh and m = c3_memory and key = "''k''" and now = 500
       and atSet = 501 and ttlMs = 100 and refreshThresholdPercent = 80 and res = "Inr 2"
       and m' = c3_after and calls = "[Awaited]" and r = c3_redis and v' = 2
       and setOk = True]
  note t2 = missing_or_expired_entry_is_fetched
    [where refreshFn = c3_rejecting and m = c3_memory and key = "''k''" and now = 500
       and atSet = 501 and ttlMs = 100 and refreshThresholdPercent = 80
       and res = "Inl ''ETIMEDOUT''" and m' = c3_failed and calls = "[Awaited]"
       and r = c3_redis and v' = 2 and setOk = True]
  note a = t1 [THEN conjunct1, rule_format, OF conjI [OF old run1]]
  note b = t2 [THEN conjunct1, rule_format, OF conjI [OF old run2]]
  note c = t1 [THEN conjunct2, rule_format, OF conjI [OF none f(1)]]
  have a4: "map_of (cache c3_after) ''k'' = Some c3_fetched"
    using a f(1) by (simp add: c3_fetched_def)
  have b4: "map_of (cache c3_failed) ''k'' = None"
    using b f(2) by simp
  show ?thesis
    apply (intro conjI)
           apply (rule run1)
          apply (rule a [THEN conjunct2, THEN conjunct1])
         apply (rule a [THEN conjunct2, THEN conjunct2, THEN conjunct1])
        apply (rule a4)
       apply (rule run2)
      apply (rule b [THEN conjunct2, THEN conjunct1])
     apply (rule b4)
    apply (rule c)
    done
qed

end
